theory Spec2Isabelle
  imports Main
begin

section \<open>Secret integers and the primitives of the secure-computation library\<close>

text \<open>
  Every quantity the solver computes with is an MPyC secure integer. The embedding
  represents a secure integer by the value it reveals to, an unbounded \<open>int\<close>: the
  solver never inspects shares, and the bit length of the secure type
  (\<open>mpc.SecInt(bit_length)\<close>) is a run-time parameter that is assumed large enough
  for every value that occurs, so that the field arithmetic of the library agrees with
  integer arithmetic.
\<close>

type_synonym secint = int

datatype error = IndexError | ValueError

text \<open>
  Modelled from the spec: the operations of the secure-computation library
  (\<open>mpyc.runtime.mpc\<close>), which is not part of the repository. The spec lists them as
  the interface of the secure-value adapter: \<open>share\<close> (\<open>mpc.input\<close>) turns a cleartext
  into a secret that reveals to it, \<open>eq\<close> and \<open>ge\<close> return the secret bit 1 or 0,
  \<open>select(cond01, a, b)\<close> (\<open>mpc.if_else\<close>) is the oblivious multiplex, computed as
  \<open>c * (x - y) + y\<close>, and \<open>dotProduct\<close> (\<open>mpc.in_prod\<close>) is the dot product.
\<close>

definition mpc_input :: "int \<Rightarrow> secint" where
  "mpc_input x = x"

definition mpc_eq :: "secint \<Rightarrow> secint \<Rightarrow> secint" where
  "mpc_eq a b = (if a = b then 1 else 0)"

definition mpc_ge :: "secint \<Rightarrow> secint \<Rightarrow> secint" where
  "mpc_ge a b = (if b \<le> a then 1 else 0)"

definition if_else :: "secint \<Rightarrow> secint \<Rightarrow> secint \<Rightarrow> secint" where
  "if_else c x y = c * (x - y) + y"

definition in_prod :: "secint list \<Rightarrow> secint list \<Rightarrow> secint" where
  "in_prod x y = sum_list (map (\<lambda>(a, b). a * b) (zip x y))"

text \<open>
  Modelled from the spec: \<open>argmin(vec) -> (index, value)\<close> with lowest-index tie-break
  (the library function \<open>mpc.argmin\<close>, which is outside the repository). An empty
  vector has no minimum; the model makes that an error.
\<close>

fun argmin :: "secint list \<Rightarrow> error + (secint \<times> secint)" where
  "argmin [] = Inl ValueError"
| "argmin [x] = Inr (0, x)"
| "argmin (x # xs) =
     (case argmin xs of
        Inl e \<Rightarrow> Inl e
      | Inr (i, m) \<Rightarrow> if m < x then Inr (i + 1, m) else Inr (0, x))"

section \<open>Oblivious primitives (\<open>mpyc_vector_functions.py\<close>)\<close>

definition real_or :: "secint \<Rightarrow> secint \<Rightarrow> secint" where
  "real_or a b = 1 - ((1 - a) * (1 - b))"

text \<open>
  \<open>compute_indicator_vector\<close> first builds a vector of \<open>length\<close> zeros and then
  overwrites position \<open>j\<close>, for \<open>j\<close> in \<open>range(length)\<close>. A negative \<open>length\<close> gives
  an empty range, which \<open>nat\<close> reproduces.
\<close>

definition compute_indicator_vector :: "int \<Rightarrow> secint \<Rightarrow> secint list" where
  "compute_indicator_vector len index =
     (let indicator_vector = replicate (nat len) (mpc_input 0);
          valid = mpc_input 1
      in fold (\<lambda>j v. v[j := if_else (mpc_eq (int j) index) valid (v ! j)])
           [0..<nat len] indicator_vector)"

text \<open>
  \<open>find_first_non_zero\<close> reads \<open>secret_list[0]\<close> for the secure type before anything
  else, which raises \<open>IndexError\<close> on an empty list. The loop carries the output list
  and the flag \<open>already_set\<close>.
\<close>

definition find_first_non_zero :: "secint list \<Rightarrow> error + secint list" where
  "find_first_non_zero secret_list =
     (if secret_list = [] then Inl IndexError
      else
        let first_non_zero_list = replicate (length secret_list) (mpc_input 0);
            already_set = mpc_input 0
        in Inr (fst (fold
              (\<lambda>j (fnz, already).
                 (fnz[j := secret_list ! j * (1 - already)],
                  real_or already (secret_list ! j)))
              [0..<length secret_list] (first_non_zero_list, already_set))))"

section \<open>Data model\<close>

text \<open>
  The classes \<open>Order\<close>, \<open>Truck\<close> and \<open>Problem\<close> belong to the plaintext package; the
  records below carry the attributes that the MPC code reads and writes. The
  uploader replaces the plaintext attributes by shares and adds the bookkeeping
  attributes; \<open>dist_to_order\<close> is set by the repositioning engine before it is read.
  The trucks and the orders of a problem are distinct objects, so the in-place updates
  of the source become updates of the list entries.
\<close>

record order =
  origin :: secint
  destination :: secint
  volume :: secint
  processed :: secint
  process_this_round :: secint
  freighter_id :: secint

record truck =
  capacity :: secint
  position :: secint
  freighter_id :: secint
  destination :: secint
  dist_to_order :: secint

record EmptyDrive =
  freighter_id :: secint
  closest_position :: secint
  first_unprocessed_origin :: secint

text \<open>
  Every call of \<open>mpc.output\<close> is an effect: it reveals one value to a set of parties.
  The solver state logs these calls. \<open>receivers=0\<close> is party 0 alone; without the
  argument the library reveals to all parties.
\<close>

datatype receivers = Everyone | Party nat

datatype item =
    NumAddedOrders
  | OrderFreighterId nat
  | OrderOrigin nat
  | OrderDestination nat
  | OrderVolume nat
  | DriveFreighterId nat
  | DriveClosestPosition nat
  | DriveFirstUnprocessedOrigin nat

datatype output_call = Output item int receivers

text \<open>
  The state of an \<open>MPCSolver\<close>. \<open>map_positions\<close> is \<open>self.map.positions\<close> and
  \<open>map_route_matrix\<close> is the result of \<open>self.map.compute_route_matrix()\<close>, a function
  of the plaintext package that is taken as a parameter here. The freighter list and
  the logger are only used for log messages and are left out.
\<close>

record solver =
  trucks :: "truck list"
  orders :: "order list"
  map_positions :: "int list"
  map_route_matrix :: "int list list"
  empty_drives :: "EmptyDrive list"
  dummy_freighter_id :: int
  dummy_node :: int
  truck_capacity :: int
  num_processed_orders :: int
  outputs :: "output_call list"

section \<open>Uploading the input (\<open>input_uploader.py\<close>)\<close>

definition upload_order :: "order \<Rightarrow> order" where
  "upload_order ord =
     ord\<lparr>origin := mpc_input (origin ord),
         order.destination := mpc_input (order.destination ord),
         volume := mpc_input (volume ord)\<rparr>"

definition initialize_order :: "order \<Rightarrow> int \<Rightarrow> order" where
  "initialize_order ord dummy_freighter =
     ord\<lparr>processed := mpc_input 0,
         process_this_round := mpc_input 0,
         order.freighter_id := mpc_input dummy_freighter\<rparr>"

definition upload_truck :: "truck \<Rightarrow> truck" where
  "upload_truck t =
     t\<lparr>capacity := mpc_input (capacity t),
       position := mpc_input (position t),
       truck.freighter_id := mpc_input (truck.freighter_id t)\<rparr>"

definition initialize_truck :: "truck \<Rightarrow> int \<Rightarrow> truck" where
  "initialize_truck t dummy = t\<lparr>truck.destination := mpc_input dummy\<rparr>"

text \<open>
  \<open>prepare_mpc_data\<close> followed by the constructor of \<open>MPCSolver\<close>. The constructor
  reads \<open>self.orders[0]\<close>, so it raises \<open>IndexError\<close> for a problem without orders.
\<close>

definition prepare_mpc_data ::
  "truck list \<Rightarrow> order list \<Rightarrow> int \<Rightarrow> int \<Rightarrow> truck list \<times> order list" where
  "prepare_mpc_data ts os dummy_freighter dummy =
     (map (\<lambda>t. initialize_truck (upload_truck t) dummy) ts,
      map (\<lambda>ord. initialize_order (upload_order ord) dummy_freighter) os)"

definition MPCSolver ::
  "truck list \<Rightarrow> order list \<Rightarrow> int list \<Rightarrow> int list list \<Rightarrow> int \<Rightarrow> int \<Rightarrow> int
     \<Rightarrow> error + solver" where
  "MPCSolver ts os poss matrix dummy_freighter dummy cap =
     (if os = [] then Inl IndexError
      else Inr \<lparr>trucks = ts, orders = os, map_positions = poss,
                map_route_matrix = matrix, empty_drives = [],
                dummy_freighter_id = dummy_freighter, dummy_node = dummy,
                truck_capacity = cap, num_processed_orders = 0, outputs = []\<rparr>)"

section \<open>Assignment engine (\<open>solver.py\<close>)\<close>

definition fill_truck_with_order :: "int \<Rightarrow> truck \<Rightarrow> order \<Rightarrow> truck \<times> order" where
  "fill_truck_with_order dummy t ord =
     (let equal_positions = mpc_eq (position t) (origin ord);
          destinations_compatible =
            real_or (mpc_eq (truck.destination t) dummy)
                    (mpc_eq (truck.destination t) (order.destination ord));
          positive_capacity = mpc_ge (capacity t - volume ord) 0;
          order_is_open = 1 - processed ord;
          compatible =
            equal_positions * destinations_compatible * positive_capacity * order_is_open;
          t1 = t\<lparr>truck.destination :=
                   if_else compatible (order.destination ord) (truck.destination t)\<rparr>;
          o1 = ord\<lparr>processed := real_or compatible (processed ord)\<rparr>;
          o2 = o1\<lparr>process_this_round := real_or compatible (process_this_round o1)\<rparr>;
          o3 = o2\<lparr>order.freighter_id :=
                    if_else compatible (truck.freighter_id t1) (order.freighter_id o2)\<rparr>;
          t2 = t1\<lparr>capacity := capacity t1 - volume o3 * compatible\<rparr>
      in (t2, o3))"

text \<open>The inner loop of \<open>_fill_trucks\<close>: one truck against every order, in list order.\<close>

fun fill_truck_with_orders :: "int \<Rightarrow> truck \<Rightarrow> order list \<Rightarrow> truck \<times> order list" where
  "fill_truck_with_orders dummy t [] = (t, [])"
| "fill_truck_with_orders dummy t (ord # os) =
     (let (t1, ord1) = fill_truck_with_order dummy t ord;
          (t2, os1) = fill_truck_with_orders dummy t1 os
      in (t2, ord1 # os1))"

text \<open>The statements of the outer loop body that follow the inner loop.\<close>

definition finish_truck :: "int \<Rightarrow> int \<Rightarrow> truck \<Rightarrow> truck" where
  "finish_truck dummy cap t =
     (let t1 = t\<lparr>capacity := cap\<rparr>;
          t2 = t1\<lparr>position :=
                   if_else (1 - mpc_eq (truck.destination t1) dummy)
                     (truck.destination t1) (position t1)\<rparr>
      in t2\<lparr>truck.destination := mpc_input dummy\<rparr>)"

fun fill_trucks_loop ::
  "int \<Rightarrow> int \<Rightarrow> truck list \<Rightarrow> order list \<Rightarrow> truck list \<times> order list" where
  "fill_trucks_loop dummy cap [] os = ([], os)"
| "fill_trucks_loop dummy cap (t # ts) os =
     (let (t1, os1) = fill_truck_with_orders dummy t os;
          t2 = finish_truck dummy cap t1;
          (ts1, os2) = fill_trucks_loop dummy cap ts os1
      in (t2 # ts1, os2))"

definition fill_trucks :: "solver \<Rightarrow> solver" where
  "fill_trucks s =
     (let (ts, os) = fill_trucks_loop (dummy_node s) (truck_capacity s) (trucks s) (orders s)
      in s\<lparr>trucks := ts, orders := os\<rparr>)"

section \<open>Repositioning engine (\<open>solver.py\<close>)\<close>

definition locate_first_unprocessed_origin :: "solver \<Rightarrow> error + (secint \<times> secint list)" where
  "locate_first_unprocessed_origin s =
     (let unprocessed_indexes = map (\<lambda>ord. 1 - processed ord) (orders s)
      in case find_first_non_zero unprocessed_indexes of
           Inl e \<Rightarrow> Inl e
         | Inr first_unprocessed_index \<Rightarrow>
             let first_origin =
                   in_prod (map origin (orders s)) first_unprocessed_index;
                 first_origin_vec =
                   compute_indicator_vector (int (length (map_positions s)))
                     first_origin
             in Inr (first_origin, first_origin_vec))"

text \<open>
  \<open>_find_truck_dist_to_order\<close> multiplies the indicator vector of the truck position,
  the route matrix and the indicator vector of the node. Modelled from the spec:
  \<open>matrixProduct\<close> (\<open>mpc.matrix_prod\<close>, a library function) is written out for the two
  calls. The inner call, with the transposed node vector, gives the dot product of every
  matrix row with the node vector; the outer call gives the dot product of the position
  vector with that column, the only entry of the result. The route matrix is square, of
  the size of \<open>map_positions\<close>.
\<close>

definition find_truck_dist_to_order ::
  "solver \<Rightarrow> truck \<Rightarrow> secint list \<Rightarrow> secint list list \<Rightarrow> truck" where
  "find_truck_dist_to_order s t node_indicator_vector route_matrix =
     (let truck_position_vec =
            compute_indicator_vector (int (length (map_positions s))) (position t)
      in t\<lparr>dist_to_order :=
             in_prod truck_position_vec
               (map (\<lambda>row. in_prod row node_indicator_vector) route_matrix)\<rparr>)"

definition find_distances_to_order :: "solver \<Rightarrow> secint list \<Rightarrow> solver" where
  "find_distances_to_order s node_indicator_vector =
     (let route_matrix = map (map mpc_input) (map_route_matrix s)
      in s\<lparr>trucks :=
             map (\<lambda>t. find_truck_dist_to_order s t node_indicator_vector route_matrix)
               (trucks s)\<rparr>)"

definition find_truck_position :: "solver \<Rightarrow> secint \<Rightarrow> secint" where
  "find_truck_position s truck_index =
     fold (\<lambda>other_truck_index pos.
             if_else (mpc_eq (int other_truck_index) truck_index)
               (position (trucks s ! other_truck_index)) pos)
       [0..<length (trucks s)] (dummy_node s)"

definition move_truck :: "solver \<Rightarrow> secint \<Rightarrow> secint \<Rightarrow> solver" where
  "move_truck s truck_index dest =
     s\<lparr>trucks :=
         fold (\<lambda>other_truck_index ts.
                 ts[other_truck_index :=
                      (ts ! other_truck_index)\<lparr>position :=
                         if_else (mpc_eq (int other_truck_index) truck_index)
                           dest (position (ts ! other_truck_index))\<rparr>])
           [0..<length (trucks s)] (trucks s)\<rparr>"

definition find_freighter_id :: "solver \<Rightarrow> secint \<Rightarrow> secint" where
  "find_freighter_id s truck_index =
     fold (\<lambda>other_truck_index fid.
             if_else (mpc_eq (int other_truck_index) truck_index)
               (truck.freighter_id (trucks s ! other_truck_index)) fid)
       [0..<length (trucks s)] (dummy_freighter_id s)"

definition create_empty_truck_drive :: "solver \<Rightarrow> error + solver" where
  "create_empty_truck_drive s =
     (case locate_first_unprocessed_origin s of
        Inl e \<Rightarrow> Inl e
      | Inr (first_origin, first_origin_vec) \<Rightarrow>
          let s1 = find_distances_to_order s first_origin_vec
          in case argmin (map dist_to_order (trucks s1)) of
               Inl e \<Rightarrow> Inl e
             | Inr (closest_truck_index, _) \<Rightarrow>
                 let closest_pos = find_truck_position s1 closest_truck_index;
                     fid = find_freighter_id s1 closest_truck_index;
                     empty_drive =
                       \<lparr>freighter_id = fid, closest_position = closest_pos,
                        first_unprocessed_origin = first_origin\<rparr>;
                     s2 = s1\<lparr>empty_drives := empty_drives s1 @ [empty_drive]\<rparr>
                 in Inr (move_truck s2 closest_truck_index first_origin))"

section \<open>Round controller (\<open>solver.py\<close>)\<close>

definition mpc_output :: "solver \<Rightarrow> item \<Rightarrow> secint \<Rightarrow> receivers \<Rightarrow> solver" where
  "mpc_output s what v to = s\<lparr>outputs := outputs s @ [Output what v to]\<rparr>"

text \<open>The body of the \<open>while\<close> loop of \<open>solve_problem\<close>.\<close>

definition solve_round :: "solver \<Rightarrow> error + solver" where
  "solve_round s =
     (let s1 = fill_trucks s;
          num_added_orders = sum_list (map process_this_round (orders s1));
          s2 = mpc_output s1 NumAddedOrders num_added_orders Everyone
      in case (if num_added_orders = 0 then create_empty_truck_drive s2 else Inr s2) of
           Inl e \<Rightarrow> Inl e
         | Inr s3 \<Rightarrow>
             Inr (s3\<lparr>orders := map (\<lambda>ord. ord\<lparr>process_this_round := 0\<rparr>) (orders s3),
                      num_processed_orders := num_processed_orders s3 + num_added_orders\<rparr>))"

text \<open>
  The loop has no bound in the source and need not terminate; a run that never leaves
  the loop is the value \<open>None\<close>.
\<close>

partial_function (option) solve_loop :: "solver \<Rightarrow> (error + solver) option" where
  "solve_loop s =
     (if num_processed_orders s < int (length (orders s))
      then (case solve_round s of Inl e \<Rightarrow> Some (Inl e) | Inr s1 \<Rightarrow> solve_loop s1)
      else Some (Inr s))"

text \<open>
  The reveal phase. The arguments of the \<open>logger.debug\<close> calls are evaluated whatever
  the log level is, so the \<open>mpc.output\<close> calls inside them always run.
\<close>

definition reveal_order :: "nat \<Rightarrow> solver \<Rightarrow> solver" where
  "reveal_order i s =
     (let ord = orders s ! i;
          s1 = mpc_output s (OrderFreighterId i) (order.freighter_id ord) Everyone;
          s2 = mpc_output s1 (OrderOrigin i) (origin ord) (Party 0);
          s3 = mpc_output s2 (OrderDestination i) (order.destination ord) (Party 0);
          s4 = mpc_output s3 (OrderVolume i) (volume ord) (Party 0);
          s5 = mpc_output s4 (OrderOrigin i) (origin ord) Everyone;
          s6 = mpc_output s5 (OrderDestination i) (order.destination ord) Everyone
      in mpc_output s6 (OrderVolume i) (volume ord) Everyone)"

definition reveal_empty_drive :: "nat \<Rightarrow> solver \<Rightarrow> solver" where
  "reveal_empty_drive i s =
     (let d = empty_drives s ! i;
          s1 = mpc_output s (DriveFreighterId i) (EmptyDrive.freighter_id d) Everyone;
          s2 = mpc_output s1 (DriveClosestPosition i) (closest_position d) (Party 0);
          s3 = mpc_output s2 (DriveFirstUnprocessedOrigin i)
                 (first_unprocessed_origin d) (Party 0);
          s4 = mpc_output s3 (DriveClosestPosition i) (closest_position d) Everyone
      in mpc_output s4 (DriveFirstUnprocessedOrigin i)
           (first_unprocessed_origin d) Everyone)"

definition reveal_results :: "solver \<Rightarrow> solver" where
  "reveal_results s =
     (let s1 = fold reveal_order [0..<length (orders s)] s
      in fold reveal_empty_drive [0..<length (empty_drives s1)] s1)"

definition solve_problem :: "solver \<Rightarrow> (error + solver) option" where
  "solve_problem s =
     (case solve_loop s of
        None \<Rightarrow> None
      | Some (Inl e) \<Rightarrow> Some (Inl e)
      | Some (Inr s1) \<Rightarrow> Some (Inr (reveal_results s1)))"

section \<open>Auxiliary functions\<close>

text \<open>
  The scan of \<open>find_first_non_zero\<close> as a recursion over the list, with the flag
  \<open>already_set\<close> as accumulator. It is proved equal to the loop, and serves the proofs.
\<close>

fun first_mask :: "secint list \<Rightarrow> secint \<Rightarrow> secint list" where
  "first_mask [] already = []"
| "first_mask (x # xs) already = x * (1 - already) # first_mask xs (real_or already x)"

text \<open>
  The flag \<open>compatible\<close> that \<open>_fill_truck_with_order\<close> computes, as a function of the
  truck and the order it is called with.
\<close>

definition compatible :: "int \<Rightarrow> truck \<Rightarrow> order \<Rightarrow> secint" where
  "compatible dummy t ord =
     mpc_eq (position t) (origin ord)
     * real_or (mpc_eq (truck.destination t) dummy)
               (mpc_eq (truck.destination t) (order.destination ord))
     * mpc_ge (capacity t - volume ord) 0
     * (1 - processed ord)"

text \<open>
  A sequence of \<open>_fill_truck_with_order\<close> calls on one order, with the trucks of the
  list in turn; only the order is kept.
\<close>

fun fill_order_calls :: "int \<Rightarrow> order \<Rightarrow> truck list \<Rightarrow> order" where
  "fill_order_calls dummy ord [] = ord"
| "fill_order_calls dummy ord (t # ts) =
     fill_order_calls dummy (snd (fill_truck_with_order dummy t ord)) ts"

text \<open>
  The states in which \<open>solve_problem\<close> evaluates the condition of its loop: the state
  that the constructor builds from the uploaded problem, and every state in which a
  round ends after the loop condition held.
\<close>

inductive round_state :: "solver \<Rightarrow> bool" where
  start:
    "MPCSolver (fst (prepare_mpc_data ts os dummy_freighter dummy))
       (snd (prepare_mpc_data ts os dummy_freighter dummy)) poss matrix dummy_freighter dummy cap
       = Inr s \<Longrightarrow> round_state s"
| round:
    "round_state s \<Longrightarrow> num_processed_orders s < int (length (orders s)) \<Longrightarrow>
       solve_round s = Inr s1 \<Longrightarrow> round_state s1"

text \<open>
  The bookkeeping of one order within a round: \<open>k\<close> is the value of \<open>processed\<close> when
  the round began.
\<close>

definition order_in_round :: "int \<Rightarrow> order \<Rightarrow> bool" where
  "order_in_round k ord \<longleftrightarrow>
     k \<in> {0, 1} \<and> process_this_round ord \<in> {0, 1}
     \<and> processed ord = k + process_this_round ord \<and> processed ord \<in> {0, 1}"

section \<open>Example inputs\<close>

text \<open>
  A problem on the two nodes 0 and 1, with node \<open>-1\<close> as the dummy node and \<open>-1\<close> as the
  dummy freighter id: one uploaded truck of freighter 7 with capacity 10 at node 0, and
  one uploaded order of volume 4 from node 0 to node 1. The configured truck capacity
  is 10.
\<close>

definition scenario_truck :: truck where
  "scenario_truck =
     initialize_truck (upload_truck
       \<lparr>capacity = 10, position = 0, freighter_id = 7, destination = 0, dist_to_order = 0\<rparr>)
       (- 1)"

definition scenario_order :: order where
  "scenario_order =
     initialize_order (upload_order
       \<lparr>origin = 0, destination = 1, volume = 4, processed = 0, process_this_round = 0,
        freighter_id = 0\<rparr>) (- 1)"

definition scenario_solver :: solver where
  "scenario_solver =
     \<lparr>trucks = [scenario_truck], orders = [scenario_order], map_positions = [0, 1],
      map_route_matrix = [ [0, 5], [5, 0] ], empty_drives = [],
      dummy_freighter_id = - 1, dummy_node = - 1, truck_capacity = 10,
      num_processed_orders = 0, outputs = []\<rparr>"

text \<open>
  The same problem with a truck uploaded with capacity 6 and a solver configured with
  the truck capacity \<open>-4\<close>.
\<close>

definition negative_capacity_solver :: solver where
  "negative_capacity_solver =
     scenario_solver\<lparr>trucks := [scenario_truck\<lparr>capacity := 6\<rparr>], truck_capacity := - 4\<rparr>"

text \<open>The same problem with the truck at node 1, where no order starts.\<close>

definition stalled_solver :: solver where
  "stalled_solver = scenario_solver\<lparr>trucks := [scenario_truck\<lparr>position := 1\<rparr>]\<rparr>"

section \<open>The oblivious OR\<close>

lemma real_or_bits:
  "real_or 0 0 = 0" "real_or 0 1 = 1" "real_or 1 0 = 1" "real_or 1 1 = 1"
  by (simp_all add: real_or_def)

text \<open>
  C4: for secret bits \<open>a\<close> and \<open>b\<close>, \<open>real_or a b = 1 - (1 - a) * (1 - b)\<close> is 1 exactly
  when one of the inputs is 1, is 0 exactly when both are 0, and is always a bit.
\<close>

theorem real_or_correct:
  assumes "a \<in> {0, 1}" and "b \<in> {0, 1}"
  shows "real_or a b = 1 - (1 - a) * (1 - b)
       \<and> (real_or a b = 1 \<longleftrightarrow> a = 1 \<or> b = 1)
       \<and> (real_or a b = 0 \<longleftrightarrow> a = 0 \<and> b = 0)
       \<and> real_or a b \<in> {0, 1}"
  using assms by (auto simp: real_or_def)

theorem real_or_correct_witness:
  "(1::int) \<in> {0, 1} \<and> (0::int) \<in> {0, 1} \<and> real_or 1 0 = 1 \<and> real_or 1 0 \<in> {0, 1}"
  using real_or_correct [of 1 0] by simp

section \<open>The indicator vector\<close>

lemma fold_update_upt:
  "k \<le> length v \<Longrightarrow>
     fold (\<lambda>j v. v[j := f j (v ! j)]) [0..<k] v = map (\<lambda>j. f j (v ! j)) [0..<k] @ drop k v"
proof (induction k)
  case 0
  then show ?case by simp
next
  case (Suc k)
  then have k: "k < length v" by simp
  have "fold (\<lambda>j v. v[j := f j (v ! j)]) [0..<Suc k] v
      = (map (\<lambda>j. f j (v ! j)) [0..<k] @ drop k v)[k := f k ((map (\<lambda>j. f j (v ! j)) [0..<k] @ drop k v) ! k)]"
    using Suc by simp
  also have "\<dots> = map (\<lambda>j. f j (v ! j)) [0..<k] @ (drop k v)[0 := f k (v ! k)]"
    using k by (simp add: list_update_append nth_append)
  also have "(drop k v)[0 := f k (v ! k)] = f k (v ! k) # drop (Suc k) v"
    using k by (simp add: Cons_nth_drop_Suc [symmetric])
  finally show ?case by simp
qed

lemma compute_indicator_vector_map:
  "compute_indicator_vector len index = map (\<lambda>j. mpc_eq (int j) index) [0..<nat len]"
proof -
  have "fold (\<lambda>j v. v[j := if_else (mpc_eq (int j) index) 1 (v ! j)]) [0..<nat len] (replicate (nat len) 0)
      = map (\<lambda>j. if_else (mpc_eq (int j) index) 1 (replicate (nat len) 0 ! j)) [0..<nat len]"
    using fold_update_upt [of "nat len" "replicate (nat len) 0" "\<lambda>j x. if_else (mpc_eq (int j) index) 1 x"]
    by simp
  also have "\<dots> = map (\<lambda>j. mpc_eq (int j) index) [0..<nat len]"
    by (rule map_cong) (simp_all add: if_else_def)
  finally show ?thesis
    by (simp add: compute_indicator_vector_def mpc_input_def Let_def)
qed

lemma compute_indicator_vector_length: "length (compute_indicator_vector len index) = nat len"
  by (simp add: compute_indicator_vector_map)

lemma compute_indicator_vector_nth:
  "j < nat len \<Longrightarrow> compute_indicator_vector len index ! j = (if int j = index then 1 else 0)"
  by (simp add: compute_indicator_vector_map mpc_eq_def)

text \<open>
  C6: for a length of at least 1 and an index \<open>i\<close> with \<open>0 \<le> i \<le> len - 1\<close>, the vector
  returned by \<open>compute_indicator_vector\<close> has \<open>len\<close> entries, all 0 except a single 1
  at position \<open>i\<close>.
\<close>

theorem compute_indicator_vector_in_range:
  assumes "1 \<le> len" and "0 \<le> i" and "i \<le> len - 1"
  shows "length (compute_indicator_vector len i) = nat len
       \<and> nat i < nat len
       \<and> compute_indicator_vector len i = (replicate (nat len) 0)[nat i := 1]
       \<and> (\<forall>j<nat len. compute_indicator_vector len i ! j = (if int j = i then 1 else 0))"
proof -
  have i: "nat i < nat len" using assms by simp
  have eq: "compute_indicator_vector len i = (replicate (nat len) 0)[nat i := 1]"
  proof (rule nth_equalityI)
    show "length (compute_indicator_vector len i) = length ((replicate (nat len) (0::int))[nat i := 1])"
      by (simp add: compute_indicator_vector_length)
  next
    fix j assume "j < length (compute_indicator_vector len i)"
    then have j: "j < nat len" by (simp add: compute_indicator_vector_length)
    have "(int j = i) = (nat i = j)" using assms by auto
    then show "compute_indicator_vector len i ! j = (replicate (nat len) 0)[nat i := 1] ! j"
      using j by (simp add: compute_indicator_vector_nth nth_list_update)
  qed
  have nth: "\<forall>j<nat len. compute_indicator_vector len i ! j = (if int j = i then 1 else 0)"
    by (simp add: compute_indicator_vector_nth)
  have len: "length (compute_indicator_vector len i) = nat len"
    by (rule compute_indicator_vector_length)
  from len i eq nth show ?thesis by blast
qed

theorem compute_indicator_vector_in_range_witness:
  "(1::int) \<le> 5 \<and> (0::int) \<le> 2 \<and> (2::int) \<le> 5 - 1
     \<and> compute_indicator_vector 5 2 = [0, 0, 1, 0, 0]"
  using compute_indicator_vector_in_range [of 5 2] by (simp add: numeral_eq_Suc)

text \<open>
  C10: for a length of at least 0 and an index outside \<open>0 .. len - 1\<close>, no position
  compares equal to the index and \<open>compute_indicator_vector\<close> returns zeros only.
\<close>

theorem compute_indicator_vector_out_of_range:
  assumes "0 \<le> len" and "i < 0 \<or> len - 1 < i"
  shows "compute_indicator_vector len i = replicate (nat len) 0"
proof (rule nth_equalityI)
  show "length (compute_indicator_vector len i) = length (replicate (nat len) (0::int))"
    by (simp add: compute_indicator_vector_length)
next
  fix j assume "j < length (compute_indicator_vector len i)"
  then have j: "j < nat len" by (simp add: compute_indicator_vector_length)
  then have "int j \<noteq> i" using assms by auto
  then show "compute_indicator_vector len i ! j = replicate (nat len) 0 ! j"
    using j by (simp add: compute_indicator_vector_nth)
qed

theorem compute_indicator_vector_out_of_range_witness:
  "(0::int) \<le> 3 \<and> ((7::int) < 0 \<or> (3::int) - 1 < 7)
     \<and> compute_indicator_vector 3 7 = [0, 0, 0]"
  using compute_indicator_vector_out_of_range [of 3 7] by (simp add: numeral_eq_Suc)

section \<open>The mask of the first non-zero position\<close>

lemma first_mask_length: "length (first_mask xs a) = length xs"
  by (induction xs arbitrary: a) simp_all

lemma first_mask_append:
  "first_mask (xs @ ys) a = first_mask xs a @ first_mask ys (foldl real_or a xs)"
  by (induction xs arbitrary: a) simp_all

lemma find_first_non_zero_fold:
  "k \<le> length xs \<Longrightarrow> length fnz = length xs \<Longrightarrow>
     fold (\<lambda>j (fnz, already). (fnz[j := xs ! j * (1 - already)], real_or already (xs ! j)))
       [0..<k] (fnz, a)
     = (first_mask (take k xs) a @ drop k fnz, foldl real_or a (take k xs))"
proof (induction k)
  case 0
  then show ?case by simp
next
  case (Suc k)
  then have k: "k < length xs" "k < length fnz" by simp_all
  have upd: "(first_mask (take k xs) a @ drop k fnz)[k := y]
        = first_mask (take k xs) a @ y # drop (Suc k) fnz" for y
    using k by (simp add: list_update_append first_mask_length upd_conv_take_nth_drop)
  show ?case
    using Suc.IH Suc.prems k
    by (simp add: upd take_Suc_conv_app_nth first_mask_append)
qed

lemma find_first_non_zero_first_mask:
  "xs \<noteq> [] \<Longrightarrow> find_first_non_zero xs = Inr (first_mask xs 0)"
  using find_first_non_zero_fold [of "length xs" xs "replicate (length xs) 0" 0]
  by (simp add: find_first_non_zero_def mpc_input_def Let_def)

lemma first_mask_found: "first_mask xs 1 = replicate (length xs) 0"
  by (induction xs) (simp_all add: real_or_def)

lemma first_mask_nth:
  "set xs \<subseteq> {0, 1} \<Longrightarrow> j < length xs \<Longrightarrow>
     first_mask xs 0 ! j = (if xs ! j \<noteq> 0 \<and> (\<forall>i<j. xs ! i = 0) then 1 else 0)"
proof (induction xs arbitrary: j)
  case Nil
  then show ?case by simp
next
  case (Cons x xs)
  from Cons.prems have x: "x = 0 \<or> x = 1" by simp
  show ?case
  proof (cases j)
    case 0
    with x show ?thesis by auto
  next
    case (Suc j')
    from x show ?thesis
    proof
      assume "x = 0"
      with Suc Cons show ?thesis
        by (simp add: real_or_def All_less_Suc2)
    next
      assume "x = 1"
      with Suc Cons.prems show ?thesis
        by (auto simp: real_or_def first_mask_found)
    qed
  qed
qed



text \<open>
  On every non-empty vector \<open>v\<close> of secret bits the scan is right:
  \<open>find_first_non_zero\<close> returns a vector \<open>r\<close> of the same length; \<open>r ! j\<close> is 1 exactly at
  the lowest index \<open>j\<close> with \<open>v ! j \<noteq> 0\<close> and 0 everywhere else, so at most one entry is
  1, and \<open>r\<close> is all-zero if and only if \<open>v\<close> is all-zero.
\<close>

theorem find_first_non_zero_correct:
  assumes "v \<noteq> []" and "set v \<subseteq> {0, 1}"
  shows "\<exists>r. find_first_non_zero v = Inr r
           \<and> length r = length v
           \<and> (\<forall>j<length v. r ! j = (if v ! j \<noteq> 0 \<and> (\<forall>i<j. v ! i = 0) then 1 else 0))
           \<and> (\<forall>i<length v. \<forall>j<length v. r ! i = 1 \<and> r ! j = 1 \<longrightarrow> i = j)
           \<and> ((\<forall>j<length v. r ! j = 0) \<longleftrightarrow> (\<forall>j<length v. v ! j = 0))"
proof -
  let ?r = "first_mask v 0"
  have res: "find_first_non_zero v = Inr ?r"
    using assms(1) by (rule find_first_non_zero_first_mask)
  have len: "length ?r = length v"
    by (rule first_mask_length)
  have nth: "\<forall>j<length v. ?r ! j = (if v ! j \<noteq> 0 \<and> (\<forall>i<j. v ! i = 0) then 1 else 0)"
    using assms(2) by (simp add: first_mask_nth)
  have one: "\<forall>i<length v. \<forall>j<length v. ?r ! i = 1 \<and> ?r ! j = 1 \<longrightarrow> i = j"
  proof (intro allI impI)
    fix i j
    assume i: "i < length v" and j: "j < length v" and ij: "?r ! i = 1 \<and> ?r ! j = 1"
    from nth i ij have pi: "v ! i \<noteq> 0 \<and> (\<forall>k<i. v ! k = 0)"
      by (metis zero_neq_one)
    from nth j ij have pj: "v ! j \<noteq> 0 \<and> (\<forall>k<j. v ! k = 0)"
      by (metis zero_neq_one)
    from pi pj show "i = j"
      by (meson linorder_neqE_nat)
  qed
  have zero: "(\<forall>j<length v. ?r ! j = 0) \<longleftrightarrow> (\<forall>j<length v. v ! j = 0)"
  proof
    assume r0: "\<forall>j<length v. ?r ! j = 0"
    show "\<forall>j<length v. v ! j = 0"
    proof (rule ccontr)
      assume "\<not> (\<forall>j<length v. v ! j = 0)"
      then have "\<exists>j. j < length v \<and> v ! j \<noteq> 0" by simp
      then obtain j where j: "j < length v \<and> v ! j \<noteq> 0"
        and least: "\<forall>m<j. \<not> (m < length v \<and> v ! m \<noteq> 0)"
        by (auto simp: exists_least_iff [of "\<lambda>j. j < length v \<and> v ! j \<noteq> 0"])
      from j least have "\<forall>i<j. v ! i = 0" by auto
      with nth j have "?r ! j = 1" by simp
      with r0 j show False by simp
    qed
  next
    assume "\<forall>j<length v. v ! j = 0"
    with nth show "\<forall>j<length v. ?r ! j = 0" by simp
  qed
  from res len nth one zero show ?thesis by blast
qed

theorem find_first_non_zero_correct_witness:
  "[1, 0, 1] \<noteq> ([] :: int list) \<and> set [1, 0, 1] \<subseteq> {0, 1 :: int}
     \<and> find_first_non_zero [1, 0, 1] = Inr [1, 0, 0]"
  using find_first_non_zero_correct [of "[1, 0, 1]"]
  by (simp add: find_first_non_zero_first_mask real_or_def)

section \<open>Filling one truck with one order\<close>

lemma fill_truck_with_order_unfold:
  "fill_truck_with_order dummy t ord =
     (t\<lparr>truck.destination :=
          if_else (compatible dummy t ord) (order.destination ord) (truck.destination t),
        capacity := capacity t - volume ord * compatible dummy t ord\<rparr>,
      ord\<lparr>processed := real_or (compatible dummy t ord) (processed ord),
          process_this_round := real_or (compatible dummy t ord) (process_this_round ord),
          order.freighter_id :=
            if_else (compatible dummy t ord) (truck.freighter_id t) (order.freighter_id ord)\<rparr>)"
  by (simp add: fill_truck_with_order_def compatible_def Let_def)

lemma compatible_cases:
  assumes "processed ord \<in> {0, 1}"
  shows "compatible dummy t ord = 0
       \<or> compatible dummy t ord = 1 \<and> processed ord = 0 \<and> volume ord \<le> capacity t
           \<and> position t = origin ord"
  using assms
  by (auto simp: compatible_def mpc_eq_def mpc_ge_def real_or_def)

lemma compatible_processed: "processed ord = 1 \<Longrightarrow> compatible dummy t ord = 0"
  by (simp add: compatible_def)

lemma fill_truck_with_order_skip:
  "compatible dummy t ord = 0 \<Longrightarrow> fill_truck_with_order dummy t ord = (t, ord)"
  by (simp add: fill_truck_with_order_unfold if_else_def real_or_def)

lemma fill_truck_with_order_take:
  "compatible dummy t ord = 1 \<Longrightarrow>
     fill_truck_with_order dummy t ord =
       (t\<lparr>truck.destination := order.destination ord, capacity := capacity t - volume ord\<rparr>,
        ord\<lparr>processed := 1, process_this_round := 1,
            order.freighter_id := truck.freighter_id t\<rparr>)"
  by (simp add: fill_truck_with_order_unfold if_else_def real_or_def)

text \<open>
  C9: one call of \<open>_fill_truck_with_order\<close> leaves the origin, the destination and the
  volume of the order and the position and the freighter id of the truck as they were;
  the truck changes at most in its destination and capacity, the order at most in
  \<open>processed\<close>, \<open>process_this_round\<close> and its freighter id.
\<close>

theorem fill_truck_with_order_frame:
  "origin (snd (fill_truck_with_order dummy t ord)) = origin ord
   \<and> order.destination (snd (fill_truck_with_order dummy t ord)) = order.destination ord
   \<and> volume (snd (fill_truck_with_order dummy t ord)) = volume ord
   \<and> position (fst (fill_truck_with_order dummy t ord)) = position t
   \<and> truck.freighter_id (fst (fill_truck_with_order dummy t ord)) = truck.freighter_id t
   \<and> (\<exists>d c. fst (fill_truck_with_order dummy t ord) = t\<lparr>truck.destination := d, capacity := c\<rparr>)
   \<and> (\<exists>p r f. snd (fill_truck_with_order dummy t ord) =
          ord\<lparr>processed := p, process_this_round := r, order.freighter_id := f\<rparr>)"
  by (simp add: fill_truck_with_order_unfold) blast


lemma fill_truck_with_order_processed_bit:
  "processed ord \<in> {0, 1} \<Longrightarrow> processed (snd (fill_truck_with_order dummy t ord)) \<in> {0, 1}"
  using compatible_cases [of ord dummy t]
  by (auto simp: fill_truck_with_order_skip fill_truck_with_order_take)

lemma fill_truck_with_order_capacity:
  "processed ord \<in> {0, 1} \<Longrightarrow> 0 \<le> capacity t \<Longrightarrow>
     0 \<le> capacity (fst (fill_truck_with_order dummy t ord))"
  using compatible_cases [of ord dummy t]
  by (auto simp: fill_truck_with_order_skip fill_truck_with_order_take)

lemma fill_truck_with_order_sentinel:
  assumes "processed ord \<in> {0, 1}"
    and "processed ord = 0 \<longrightarrow> order.freighter_id ord = dummy_freighter"
  shows "processed (snd (fill_truck_with_order dummy t ord)) = 0 \<longrightarrow>
           order.freighter_id (snd (fill_truck_with_order dummy t ord)) = dummy_freighter"
  using compatible_cases [of ord dummy t] assms
  by (auto simp: fill_truck_with_order_skip fill_truck_with_order_take)

lemma fill_truck_with_order_assigned:
  "processed ord = 1 \<Longrightarrow> snd (fill_truck_with_order dummy t ord) = ord"
  by (simp add: compatible_processed fill_truck_with_order_skip)

lemma fill_order_calls_assigned:
  "processed ord = 1 \<Longrightarrow> fill_order_calls dummy ord ts = ord"
  by (induction ts) (simp_all add: fill_truck_with_order_assigned)

lemma fill_order_calls_sentinel:
  "processed ord \<in> {0, 1} \<Longrightarrow>
   (processed ord = 0 \<longrightarrow> order.freighter_id ord = dummy_freighter) \<Longrightarrow>
     processed (fill_order_calls dummy ord ts) \<in> {0, 1}
     \<and> (processed (fill_order_calls dummy ord ts) = 0 \<longrightarrow>
          order.freighter_id (fill_order_calls dummy ord ts) = dummy_freighter)"
proof (induction ts arbitrary: ord)
  case Nil
  then show ?case by simp
next
  case (Cons t ts)
  let ?ord1 = "snd (fill_truck_with_order dummy t ord)"
  have "processed ?ord1 \<in> {0, 1}"
    using Cons.prems(1) by (rule fill_truck_with_order_processed_bit)
  moreover have "processed ?ord1 = 0 \<longrightarrow> order.freighter_id ?ord1 = dummy_freighter"
    using Cons.prems by (rule fill_truck_with_order_sentinel)
  ultimately show ?case
    using Cons.IH [of ?ord1] by simp
qed

lemma fill_order_calls_append:
  "fill_order_calls dummy ord (ts @ ts') =
     fill_order_calls dummy (fill_order_calls dummy ord ts) ts'"
  by (induction ts arbitrary: ord) simp_all

text \<open>
  C8: an order is initialised unprocessed with the dummy freighter id. Through any
  sequence of \<open>_fill_truck_with_order\<close> calls the freighter id is the dummy sentinel as
  long as \<open>processed\<close> is 0, and once \<open>processed\<close> is 1 no later call changes the
  freighter id.
\<close>

theorem freighter_id_sentinel_until_processed:
  assumes "processed ord \<in> {0, 1}"
    and "processed ord = 0 \<longrightarrow> order.freighter_id ord = dummy_freighter"
  shows "processed (initialize_order ord0 dummy_freighter) = 0
       \<and> order.freighter_id (initialize_order ord0 dummy_freighter) = dummy_freighter
       \<and> processed (fill_order_calls dummy ord ts) \<in> {0, 1}
       \<and> (processed (fill_order_calls dummy ord ts) = 0 \<longrightarrow>
            order.freighter_id (fill_order_calls dummy ord ts) = dummy_freighter)
       \<and> (processed (fill_order_calls dummy ord ts) = 1 \<longrightarrow>
            processed (fill_order_calls dummy ord (ts @ ts')) = 1
            \<and> order.freighter_id (fill_order_calls dummy ord (ts @ ts')) =
                order.freighter_id (fill_order_calls dummy ord ts))"
  using fill_order_calls_sentinel [OF assms, of dummy ts]
  by (auto simp: initialize_order_def mpc_input_def fill_order_calls_assigned
      fill_order_calls_append)

lemma scenario_simps:
  "scenario_truck = \<lparr>capacity = 10, position = 0, freighter_id = 7, destination = - 1, dist_to_order = 0\<rparr>"
  "scenario_order = \<lparr>origin = 0, destination = 1, volume = 4, processed = 0, process_this_round = 0,
        freighter_id = - 1\<rparr>"
  by (simp_all add: scenario_truck_def scenario_order_def initialize_truck_def upload_truck_def
      initialize_order_def upload_order_def mpc_input_def)

theorem freighter_id_sentinel_until_processed_witness:
  "processed scenario_order \<in> {0, 1}
   \<and> processed scenario_order = 0 \<and> order.freighter_id scenario_order = - 1
   \<and> processed (fill_order_calls (- 1) scenario_order
         [scenario_truck\<lparr>position := 1\<rparr>, scenario_truck]) = 1
   \<and> order.freighter_id (fill_order_calls (- 1) scenario_order
         [scenario_truck\<lparr>position := 1\<rparr>, scenario_truck]) = 7
   \<and> order.freighter_id (fill_order_calls (- 1) scenario_order
         ([scenario_truck\<lparr>position := 1\<rparr>, scenario_truck]
          @ [scenario_truck\<lparr>truck.freighter_id := 8\<rparr>])) = 7"
  using freighter_id_sentinel_until_processed [of scenario_order "- 1" scenario_order "- 1"
      "[scenario_truck\<lparr>position := 1\<rparr>, scenario_truck]"
      "[scenario_truck\<lparr>truck.freighter_id := 8\<rparr>]"]
  by (simp add: scenario_simps fill_truck_with_order_unfold compatible_def mpc_eq_def mpc_ge_def
      real_or_def if_else_def)

section \<open>Fill rounds\<close>

lemma fill_truck_with_orders_bits:
  "\<forall>ord\<in>set os. processed ord \<in> {0, 1} \<Longrightarrow>
     \<forall>ord\<in>set (snd (fill_truck_with_orders dummy t os)). processed ord \<in> {0, 1}"
proof (induction os arbitrary: t)
  case Nil
  then show ?case by simp
next
  case (Cons ord os)
  have "processed (snd (fill_truck_with_order dummy t ord)) \<in> {0, 1}"
    using Cons.prems by (intro fill_truck_with_order_processed_bit) simp
  moreover have "\<forall>x\<in>set (snd (fill_truck_with_orders dummy
      (fst (fill_truck_with_order dummy t ord)) os)). processed x \<in> {0, 1}"
    using Cons.prems by (intro Cons.IH) simp
  ultimately show ?case
    by (simp add: case_prod_unfold Let_def)
qed

lemma fill_truck_with_orders_capacity:
  "\<forall>ord\<in>set os. processed ord \<in> {0, 1} \<Longrightarrow> 0 \<le> capacity t \<Longrightarrow>
     0 \<le> capacity (fst (fill_truck_with_orders dummy t os))"
proof (induction os arbitrary: t)
  case Nil
  then show ?case by simp
next
  case (Cons ord os)
  have "0 \<le> capacity (fst (fill_truck_with_order dummy t ord))"
    using Cons.prems by (simp add: fill_truck_with_order_capacity)
  then have "0 \<le> capacity (fst (fill_truck_with_orders dummy
      (fst (fill_truck_with_order dummy t ord)) os))"
    using Cons.prems by (intro Cons.IH) simp_all
  then show ?case
    by (simp add: case_prod_unfold Let_def)
qed

lemma fill_trucks_loop_bits:
  "\<forall>ord\<in>set os. processed ord \<in> {0, 1} \<Longrightarrow>
     \<forall>ord\<in>set (snd (fill_trucks_loop dummy cap ts os)). processed ord \<in> {0, 1}"
proof (induction ts arbitrary: os)
  case Nil
  then show ?case by simp
next
  case (Cons t ts)
  have "\<forall>ord\<in>set (snd (fill_truck_with_orders dummy t os)). processed ord \<in> {0, 1}"
    using Cons.prems by (rule fill_truck_with_orders_bits)
  then have "\<forall>ord\<in>set (snd (fill_trucks_loop dummy cap ts
      (snd (fill_truck_with_orders dummy t os)))). processed ord \<in> {0, 1}"
    by (rule Cons.IH)
  then show ?case
    by (simp add: case_prod_unfold Let_def)
qed

lemma fill_trucks_loop_capacity:
  "\<forall>t\<in>set (fst (fill_trucks_loop dummy cap ts os)). capacity t = cap"
proof (induction ts arbitrary: os)
  case Nil
  then show ?case by simp
next
  case (Cons t ts)
  show ?case
    using Cons.IH by (simp add: case_prod_unfold Let_def finish_truck_def)
qed

lemma fill_trucks_loop_length:
  "length (fst (fill_trucks_loop dummy cap ts os)) = length ts"
  by (induction ts arbitrary: os) (simp_all add: case_prod_unfold Let_def)

lemma fill_trucks_fields:
  "trucks (fill_trucks s) =
     fst (fill_trucks_loop (dummy_node s) (truck_capacity s) (trucks s) (orders s))"
  "orders (fill_trucks s) =
     snd (fill_trucks_loop (dummy_node s) (truck_capacity s) (trucks s) (orders s))"
  "truck_capacity (fill_trucks s) = truck_capacity s"
  "dummy_node (fill_trucks s) = dummy_node s"
  "dummy_freighter_id (fill_trucks s) = dummy_freighter_id s"
  "empty_drives (fill_trucks s) = empty_drives s"
  "num_processed_orders (fill_trucks s) = num_processed_orders s"
  "outputs (fill_trucks s) = outputs s"
  "map_positions (fill_trucks s) = map_positions s"
  "map_route_matrix (fill_trucks s) = map_route_matrix s"
  by (simp_all add: fill_trucks_def case_prod_unfold Let_def)

lemma fill_trucks_rounds_fields:
  "truck_capacity ((fill_trucks ^^ n) s) = truck_capacity s"
  "length (trucks ((fill_trucks ^^ n) s)) = length (trucks s)"
  by (induction n) (simp_all add: fill_trucks_fields fill_trucks_loop_length)

lemma fill_trucks_rounds_bits:
  "\<forall>ord\<in>set (orders s). processed ord \<in> {0, 1} \<Longrightarrow>
     \<forall>ord\<in>set (orders ((fill_trucks ^^ n) s)). processed ord \<in> {0, 1}"
proof (induction n)
  case 0
  then show ?case by simp
next
  case (Suc n)
  then have "\<forall>ord\<in>set (orders ((fill_trucks ^^ n) s)). processed ord \<in> {0, 1}"
    by blast
  then have "\<forall>ord\<in>set (orders (fill_trucks ((fill_trucks ^^ n) s))). processed ord \<in> {0, 1}"
    unfolding fill_trucks_fields by (rule fill_trucks_loop_bits)
  then show ?case by simp
qed

lemmas fill_eval =
  fill_trucks_def finish_truck_def fill_truck_with_order_unfold compatible_def
  mpc_eq_def mpc_ge_def real_or_def if_else_def mpc_input_def

text \<open>
  C7 (amended): starting from non-negative uploaded capacities, and with a non-negative
  configured \<open>truck_capacity\<close>, to which every round resets the capacity, the capacity
  of every truck is non-negative after any number of \<open>_fill_trucks\<close> rounds. Within a
  round, a call of \<open>_fill_truck_with_order\<close> on a truck of non-negative capacity and an
  order whose \<open>processed\<close> flag is a bit leaves the capacity non-negative and the flag a
  bit, and the flags of a problem stay bits through all rounds.
\<close>

theorem capacity_never_negative:
  assumes caps: "\<forall>t\<in>set (trucks s). 0 \<le> capacity t"
    and cap: "0 \<le> truck_capacity s"
  shows "(\<forall>t\<in>set (trucks ((fill_trucks ^^ n) s)). 0 \<le> capacity t)
       \<and> ((\<forall>ord\<in>set (orders s). processed ord \<in> {0, 1}) \<longrightarrow>
            (\<forall>ord\<in>set (orders ((fill_trucks ^^ n) s)). processed ord \<in> {0, 1}))
       \<and> (\<forall>t ord. 0 \<le> capacity t \<and> processed ord \<in> {0, 1} \<longrightarrow>
             0 \<le> capacity (fst (fill_truck_with_order (dummy_node s) t ord))
             \<and> processed (snd (fill_truck_with_order (dummy_node s) t ord)) \<in> {0, 1})"
proof -
  have "\<forall>t\<in>set (trucks ((fill_trucks ^^ n) s)). 0 \<le> capacity t"
  proof (cases n)
    case 0
    with caps show ?thesis by simp
  next
    case (Suc m)
    show ?thesis
    proof
      fix t assume "t \<in> set (trucks ((fill_trucks ^^ n) s))"
      then have "capacity t = truck_capacity s"
        using fill_trucks_loop_capacity
        by (simp add: Suc fill_trucks_fields fill_trucks_rounds_fields)
      with cap show "0 \<le> capacity t" by simp
    qed
  qed
  moreover have "(\<forall>ord\<in>set (orders s). processed ord \<in> {0, 1}) \<longrightarrow>
      (\<forall>ord\<in>set (orders ((fill_trucks ^^ n) s)). processed ord \<in> {0, 1})"
    using fill_trucks_rounds_bits by blast
  moreover have "\<forall>t ord. 0 \<le> capacity t \<and> processed ord \<in> {0, 1} \<longrightarrow>
      0 \<le> capacity (fst (fill_truck_with_order (dummy_node s) t ord))
      \<and> processed (snd (fill_truck_with_order (dummy_node s) t ord)) \<in> {0, 1}"
    using fill_truck_with_order_capacity fill_truck_with_order_processed_bit by blast
  ultimately show ?thesis by blast
qed

theorem capacity_never_negative_witness:
  "list_all (\<lambda>t. 0 \<le> capacity t) (trucks scenario_solver)
   \<and> 0 \<le> truck_capacity scenario_solver
   \<and> list_all (\<lambda>t. 0 \<le> capacity t) (trucks ((fill_trucks ^^ 2) scenario_solver))
   \<and> list_all (\<lambda>ord. processed ord \<in> {0, 1}) (orders ((fill_trucks ^^ 2) scenario_solver))
   \<and> map capacity (trucks ((fill_trucks ^^ 2) scenario_solver)) = [10]"
proof -
  have caps: "\<forall>t\<in>set (trucks scenario_solver). 0 \<le> capacity t"
    by (simp add: scenario_solver_def scenario_simps)
  have cap: "0 \<le> truck_capacity scenario_solver"
    by (simp add: scenario_solver_def)
  have bits: "\<forall>ord\<in>set (orders scenario_solver). processed ord \<in> {0, 1}"
    by (simp add: scenario_solver_def scenario_simps)
  have "map capacity (trucks ((fill_trucks ^^ 2) scenario_solver)) = [10]"
    by (simp add: numeral_2_eq_2 scenario_solver_def scenario_simps fill_eval)
  with caps cap bits capacity_never_negative [OF caps cap, of 2] show ?thesis
    unfolding list_all_iff by blast
qed

text \<open>
  The claim C7 as stated, with a hypothesis on the uploaded capacity only, fails when
  the configured truck capacity is negative: the truck is uploaded with capacity 6, and
  after one \<open>_fill_trucks\<close> round its capacity is \<open>-4\<close>.
\<close>

theorem capacity_never_negative_counterexample:
  "map capacity (trucks negative_capacity_solver) = [6]
   \<and> map capacity (trucks (fill_trucks negative_capacity_solver)) = [- 4]
   \<and> \<not> list_all (\<lambda>t. 0 \<le> capacity t) (trucks (fill_trucks negative_capacity_solver))"
  by (simp add: negative_capacity_solver_def scenario_solver_def scenario_simps fill_eval)

section \<open>The scenario of one truck and one order\<close>

text \<open>
  C1 (amended): for one truck (capacity 10, at the origin of the order, dummy destination)
  and one unprocessed order of volume 4, the call of \<open>_fill_truck_with_order\<close> inside
  the round sets \<open>processed\<close> to 1 and the freighter id of the order to the one of the
  truck, and leaves the truck with capacity 6 and the destination of the order. When
  the round (\<open>_fill_trucks\<close>) has returned, the order is still processed and assigned,
  while the truck has been reset: its capacity is the configured \<open>truck_capacity\<close>, its
  destination is the dummy node, and its position has advanced to the destination of
  the order.
\<close>

theorem one_truck_one_order_round:
  assumes "trucks s = [t]" and "orders s = [ord]"
    and "capacity t = 10" and "position t = origin ord"
    and "truck.destination t = dummy_node s"
    and "volume ord = 4" and "processed ord = 0"
  shows "processed (snd (fill_truck_with_order (dummy_node s) t ord)) = 1
       \<and> order.freighter_id (snd (fill_truck_with_order (dummy_node s) t ord)) = truck.freighter_id t
       \<and> capacity (fst (fill_truck_with_order (dummy_node s) t ord)) = 6
       \<and> truck.destination (fst (fill_truck_with_order (dummy_node s) t ord)) = order.destination ord
       \<and> map processed (orders (fill_trucks s)) = [1]
       \<and> map order.freighter_id (orders (fill_trucks s)) = [truck.freighter_id t]
       \<and> map capacity (trucks (fill_trucks s)) = [truck_capacity s]
       \<and> map truck.destination (trucks (fill_trucks s)) = [dummy_node s]
       \<and> map position (trucks (fill_trucks s)) =
           [if order.destination ord = dummy_node s then position t else order.destination ord]"
proof -
  have c: "compatible (dummy_node s) t ord = 1"
    using assms by (simp add: compatible_def mpc_eq_def mpc_ge_def real_or_def)
  show ?thesis
    using assms
    by (simp add: fill_trucks_def finish_truck_def fill_truck_with_order_take [OF c]
        mpc_eq_def if_else_def mpc_input_def)
qed

theorem one_truck_one_order_round_witness:
  "trucks scenario_solver = [scenario_truck] \<and> orders scenario_solver = [scenario_order]
   \<and> capacity scenario_truck = 10 \<and> position scenario_truck = origin scenario_order
   \<and> truck.destination scenario_truck = dummy_node scenario_solver
   \<and> volume scenario_order = 4 \<and> processed scenario_order = 0
   \<and> map processed (orders (fill_trucks scenario_solver)) = [1]
   \<and> map order.freighter_id (orders (fill_trucks scenario_solver)) = [7]
   \<and> map capacity (trucks (fill_trucks scenario_solver)) = [10]
   \<and> map truck.destination (trucks (fill_trucks scenario_solver)) = [- 1]
   \<and> map position (trucks (fill_trucks scenario_solver)) = [1]"
  using one_truck_one_order_round [of scenario_solver scenario_truck scenario_order]
  by (simp add: scenario_solver_def scenario_simps)

text \<open>
  The claim C1 as stated fails on the example problem (truck capacity 10, order from
  node 0 to node 1, dummy node \<open>-1\<close>): after \<open>_fill_trucks\<close> the capacity of the truck
  is 10, not 6, and its destination is the dummy node, not node 1.
\<close>

theorem one_truck_one_order_round_counterexample:
  "map capacity (trucks (fill_trucks scenario_solver)) = [10]
   \<and> map truck.destination (trucks (fill_trucks scenario_solver)) = [- 1]
   \<and> \<not> (map processed (orders (fill_trucks scenario_solver)) = [1]
        \<and> map order.freighter_id (orders (fill_trucks scenario_solver)) = [7]
        \<and> map capacity (trucks (fill_trucks scenario_solver)) = [6]
        \<and> map truck.destination (trucks (fill_trucks scenario_solver)) = [1])"
  by (simp add: scenario_solver_def scenario_simps fill_eval)

section \<open>Rounds of the solver\<close>

lemma fill_truck_with_order_in_round:
  "order_in_round k ord \<Longrightarrow> order_in_round k (snd (fill_truck_with_order dummy t ord))"
  using compatible_cases [of ord dummy t]
  by (auto simp: order_in_round_def fill_truck_with_order_skip fill_truck_with_order_take)

lemma fill_truck_with_orders_in_round:
  "list_all2 order_in_round ks os \<Longrightarrow>
     list_all2 order_in_round ks (snd (fill_truck_with_orders dummy t os))"
proof (induction os arbitrary: ks t)
  case Nil
  then show ?case by simp
next
  case (Cons ord os)
  from Cons.prems obtain k ks' where ks: "ks = k # ks'" and k: "order_in_round k ord"
    and rest: "list_all2 order_in_round ks' os"
    by (auto simp: list_all2_Cons2)
  have "list_all2 order_in_round ks' (snd (fill_truck_with_orders dummy
      (fst (fill_truck_with_order dummy t ord)) os))"
    using rest by (rule Cons.IH)
  with k show ?case
    by (simp add: ks case_prod_unfold Let_def fill_truck_with_order_in_round)
qed

lemma fill_trucks_loop_in_round:
  "list_all2 order_in_round ks os \<Longrightarrow>
     list_all2 order_in_round ks (snd (fill_trucks_loop dummy cap ts os))"
proof (induction ts arbitrary: os)
  case Nil
  then show ?case by simp
next
  case (Cons t ts)
  have "list_all2 order_in_round ks (snd (fill_truck_with_orders dummy t os))"
    using Cons.prems by (rule fill_truck_with_orders_in_round)
  then have "list_all2 order_in_round ks (snd (fill_trucks_loop dummy cap ts
      (snd (fill_truck_with_orders dummy t os))))"
    by (rule Cons.IH)
  then show ?case
    by (simp add: case_prod_unfold Let_def)
qed

lemma in_round_sums:
  "list_all2 order_in_round ks os \<Longrightarrow>
     sum_list (map processed os) = sum_list ks + sum_list (map process_this_round os)"
  by (induction ks os rule: list_all2_induct) (simp_all add: order_in_round_def)

lemma in_round_none_added:
  "list_all2 order_in_round ks os \<Longrightarrow> sum_list (map process_this_round os) = 0 \<Longrightarrow>
     map processed os = ks \<and> (\<forall>ord\<in>set os. process_this_round ord = 0)"
proof (induction ks os rule: list_all2_induct)
  case Nil
  then show ?case by simp
next
  case (Cons k ks ord os)
  have nonneg: "0 \<le> sum_list (map process_this_round os)"
    using Cons.hyps(2)
    by (induction ks os rule: list_all2_induct) (auto simp: order_in_round_def)
  from Cons.hyps(1) have "process_this_round ord = 0 \<or> process_this_round ord = 1"
    by (simp add: order_in_round_def)
  with nonneg Cons.prems have "process_this_round ord = 0"
    and "sum_list (map process_this_round os) = 0"
    by auto
  with Cons show ?case
    by (simp add: order_in_round_def)
qed

lemma in_round_bits:
  "list_all2 order_in_round ks os \<Longrightarrow> \<forall>ord\<in>set os. processed ord \<in> {0, 1}"
  by (induction ks os rule: list_all2_induct) (auto simp: order_in_round_def)

lemma in_round_start:
  "\<forall>ord\<in>set os. processed ord \<in> {0, 1} \<and> process_this_round ord = 0 \<Longrightarrow>
     list_all2 order_in_round (map processed os) os"
  by (induction os) (auto simp: order_in_round_def)

lemma bits_sum_less_length:
  fixes os :: "order list"
  shows "\<forall>ord\<in>set os. processed ord \<in> {0, 1} \<Longrightarrow>
     sum_list (map processed os) < int (length os) \<Longrightarrow>
     \<exists>ord. List.find (\<lambda>ord. processed ord = 0) os = Some ord"
proof (induction os)
  case Nil
  then show ?case by simp
next
  case (Cons ord os)
  show ?case
  proof (cases "processed ord = 0")
    case True
    then show ?thesis by simp
  next
    case False
    with Cons.prems have "processed ord = 1" by simp
    with Cons show ?thesis by simp
  qed
qed


section \<open>The empty drive\<close>

lemma in_prod_Cons: "in_prod (a # as) (b # bs) = a * b + in_prod as bs"
  by (simp add: in_prod_def)

lemma in_prod_zeros: "in_prod xs (replicate n 0) = 0"
proof (induction xs arbitrary: n)
  case Nil
  then show ?case by (simp add: in_prod_def)
next
  case (Cons x xs)
  then show ?case by (cases n) (simp_all add: in_prod_def)
qed

lemma first_unprocessed_origin_value:
  "\<forall>ord\<in>set os. processed ord \<in> {0, 1} \<Longrightarrow>
   List.find (\<lambda>ord. processed ord = 0) os = Some ord1 \<Longrightarrow>
     in_prod (map origin os) (first_mask (map (\<lambda>ord. 1 - processed ord) os) 0) = origin ord1"
proof (induction os)
  case Nil
  then show ?case by simp
next
  case (Cons ord os)
  show ?case
  proof (cases "processed ord = 0")
    case True
    with Cons.prems show ?thesis
      by (simp add: in_prod_Cons real_or_def first_mask_found in_prod_zeros)
  next
    case False
    with Cons.prems have "processed ord = 1" by simp
    with Cons show ?thesis
      by (simp add: in_prod_Cons real_or_def)
  qed
qed

lemma fold_select:
  "fold (\<lambda>j acc. if_else (mpc_eq (int j) idx) (f j) acc) [0..<n] a =
     (if 0 \<le> idx \<and> idx < int n then f (nat idx) else a)"
proof (induction n)
  case 0
  then show ?case by simp
next
  case (Suc n)
  show ?case
  proof (cases "idx = int n")
    case True
    then show ?thesis by (simp add: if_else_def mpc_eq_def)
  next
    case False
    with Suc show ?thesis by (auto simp: if_else_def mpc_eq_def)
  qed
qed

lemma argmin_in_range:
  "xs \<noteq> [] \<Longrightarrow> \<exists>i m. argmin xs = Inr (i, m) \<and> 0 \<le> i \<and> i < int (length xs)"
proof (induction xs rule: argmin.induct)
  case 1
  then show ?case by simp
next
  case (2 x)
  then show ?case by simp
next
  case (3 x y ys)
  then obtain i m where "argmin (y # ys) = Inr (i, m)" "0 \<le> i" "i < int (length (y # ys))"
    by auto
  then show ?case by auto
qed

lemma move_truck_trucks:
  "trucks (move_truck s idx dest) =
     map (\<lambda>j. (trucks s ! j)\<lparr>position :=
            if_else (mpc_eq (int j) idx) dest (position (trucks s ! j))\<rparr>)
       [0..<length (trucks s)]"
  using fold_update_upt [of "length (trucks s)" "trucks s"
      "\<lambda>j t. t\<lparr>position := if_else (mpc_eq (int j) idx) dest (position t)\<rparr>"]
  by (simp add: move_truck_def)

lemma move_truck_fields:
  "orders (move_truck s idx dest) = orders s"
  "empty_drives (move_truck s idx dest) = empty_drives s"
  "num_processed_orders (move_truck s idx dest) = num_processed_orders s"
  "outputs (move_truck s idx dest) = outputs s"
  by (simp_all add: move_truck_def)

lemma find_distances_to_order_fields:
  "orders (find_distances_to_order s v) = orders s"
  "empty_drives (find_distances_to_order s v) = empty_drives s"
  "num_processed_orders (find_distances_to_order s v) = num_processed_orders s"
  "outputs (find_distances_to_order s v) = outputs s"
  "dummy_node (find_distances_to_order s v) = dummy_node s"
  "dummy_freighter_id (find_distances_to_order s v) = dummy_freighter_id s"
  "length (trucks (find_distances_to_order s v)) = length (trucks s)"
  by (simp_all add: find_distances_to_order_def Let_def)

lemma find_distances_to_order_nth:
  "j < length (trucks s) \<Longrightarrow>
     position (trucks (find_distances_to_order s v) ! j) = position (trucks s ! j)
     \<and> truck.freighter_id (trucks (find_distances_to_order s v) ! j) =
         truck.freighter_id (trucks s ! j)"
  by (simp add: find_distances_to_order_def find_truck_dist_to_order_def Let_def)

lemma locate_first_unprocessed_origin_result:
  "orders s \<noteq> [] \<Longrightarrow>
     \<exists>v. locate_first_unprocessed_origin s =
       Inr (in_prod (map origin (orders s))
              (first_mask (map (\<lambda>ord. 1 - processed ord) (orders s)) 0), v)"
  by (simp add: locate_first_unprocessed_origin_def find_first_non_zero_first_mask Let_def)


lemma create_empty_truck_drive_result:
  assumes os: "orders s \<noteq> []" and ts: "trucks s \<noteq> []"
  defines "fo \<equiv> in_prod (map origin (orders s))
                    (first_mask (map (\<lambda>ord. 1 - processed ord) (orders s)) 0)"
  shows "\<exists>i s1. i < length (trucks s) \<and> create_empty_truck_drive s = Inr s1
           \<and> empty_drives s1 = empty_drives s @
                 [\<lparr>freighter_id = truck.freighter_id (trucks s ! i),
                   closest_position = position (trucks s ! i),
                   first_unprocessed_origin = fo\<rparr>]
           \<and> orders s1 = orders s
           \<and> num_processed_orders s1 = num_processed_orders s
           \<and> length (trucks s1) = length (trucks s)
           \<and> (\<forall>j<length (trucks s).
                 position (trucks s1 ! j) = (if j = i then fo else position (trucks s ! j))
                 \<and> truck.freighter_id (trucks s1 ! j) = truck.freighter_id (trucks s ! j))"
proof -
  from os obtain v where loc: "locate_first_unprocessed_origin s = Inr (fo, v)"
    unfolding fo_def using locate_first_unprocessed_origin_result by blast
  define sd where "sd = find_distances_to_order s v"
  have len: "length (trucks sd) = length (trucks s)"
    by (simp add: sd_def find_distances_to_order_fields)
  with ts have "map dist_to_order (trucks sd) \<noteq> []" by auto
  then obtain i m where am: "argmin (map dist_to_order (trucks sd)) = Inr (i, m)"
    and i0: "0 \<le> i" and i1: "i < int (length (trucks s))"
    using argmin_in_range [of "map dist_to_order (trucks sd)"] len by auto
  define n where "n = nat i"
  have n: "n < length (trucks s)" and i: "i = int n"
    using i0 i1 by (simp_all add: n_def)
  define d where "d = \<lparr>freighter_id = truck.freighter_id (trucks s ! n),
      closest_position = position (trucks s ! n), first_unprocessed_origin = fo\<rparr>"
  have pos: "find_truck_position sd i = position (trucks s ! n)"
    unfolding find_truck_position_def fold_select
    using n len by (simp add: i sd_def find_distances_to_order_nth)
  have fid: "find_freighter_id sd i = truck.freighter_id (trucks s ! n)"
    unfolding find_freighter_id_def fold_select
    using n len by (simp add: i sd_def find_distances_to_order_nth)
  define s1 where "s1 = move_truck (sd\<lparr>empty_drives := empty_drives sd @ [d]\<rparr>) i fo"
  have res: "create_empty_truck_drive s = Inr s1"
    using loc am pos fid
    by (simp add: create_empty_truck_drive_def Let_def sd_def [symmetric] s1_def d_def)
  have tr: "trucks s1 = map (\<lambda>j. (trucks sd ! j)\<lparr>position :=
      if_else (mpc_eq (int j) i) fo (position (trucks sd ! j))\<rparr>) [0..<length (trucks s)]"
    by (simp add: s1_def move_truck_trucks len)
  have "\<forall>j<length (trucks s).
      position (trucks s1 ! j) = (if j = n then fo else position (trucks s ! j))
      \<and> truck.freighter_id (trucks s1 ! j) = truck.freighter_id (trucks s ! j)"
    by (simp add: tr i if_else_def mpc_eq_def sd_def find_distances_to_order_nth)
  moreover have "empty_drives s1 = empty_drives s @ [d]" "orders s1 = orders s"
    "num_processed_orders s1 = num_processed_orders s"
    by (simp_all add: s1_def move_truck_fields sd_def find_distances_to_order_fields)
  moreover have "length (trucks s1) = length (trucks s)"
    by (simp add: tr)
  ultimately show ?thesis
    using n res unfolding d_def by blast
qed

lemma create_empty_truck_drive_no_trucks:
  "trucks s = [] \<Longrightarrow> \<exists>e. create_empty_truck_drive s = Inl e"
  by (simp add: create_empty_truck_drive_def find_distances_to_order_def Let_def
      split: sum.splits prod.splits)


section \<open>One round of \<open>solve_problem\<close>\<close>

lemma mpc_output_fields:
  "trucks (mpc_output s what v to) = trucks s"
  "orders (mpc_output s what v to) = orders s"
  "empty_drives (mpc_output s what v to) = empty_drives s"
  "num_processed_orders (mpc_output s what v to) = num_processed_orders s"
  by (simp_all add: mpc_output_def)

lemma fill_trucks_in_round:
  assumes "\<forall>ord\<in>set (orders s). processed ord \<in> {0, 1} \<and> process_this_round ord = 0"
  shows "list_all2 order_in_round (map processed (orders s)) (orders (fill_trucks s))"
  unfolding fill_trucks_fields
  using assms by (intro fill_trucks_loop_in_round in_round_start)

lemma solve_round_progress:
  assumes "sum_list (map process_this_round (orders (fill_trucks s))) \<noteq> 0"
  shows "\<exists>s1. solve_round s = Inr s1
           \<and> empty_drives s1 = empty_drives s
           \<and> orders s1 = map (\<lambda>ord. ord\<lparr>process_this_round := 0\<rparr>) (orders (fill_trucks s))
           \<and> num_processed_orders s1 = num_processed_orders s
                 + sum_list (map process_this_round (orders (fill_trucks s)))"
  using assms
  by (simp add: solve_round_def Let_def mpc_output_fields fill_trucks_fields)

lemma solve_round_stalled:
  assumes "sum_list (map process_this_round (orders (fill_trucks s))) = 0"
  shows "solve_round s =
     (case create_empty_truck_drive (mpc_output (fill_trucks s) NumAddedOrders 0 Everyone) of
        Inl e \<Rightarrow> Inl e
      | Inr s3 \<Rightarrow> Inr (s3\<lparr>orders := map (\<lambda>ord. ord\<lparr>process_this_round := 0\<rparr>) (orders s3),
                        num_processed_orders := num_processed_orders s3 + 0\<rparr>))"
  using assms by (simp add: solve_round_def Let_def split: sum.splits)

lemma round_state_invariant:
  "round_state s \<Longrightarrow>
     (\<forall>ord\<in>set (orders s). processed ord \<in> {0, 1} \<and> process_this_round ord = 0)
     \<and> num_processed_orders s = sum_list (map processed (orders s))"
proof (induction rule: round_state.induct)
  case (start ts os dummy_freighter dummy poss matrix cap s)
  then have "orders s = map (\<lambda>ord. initialize_order (upload_order ord) dummy_freighter) os"
    and "num_processed_orders s = 0"
    by (auto simp: MPCSolver_def prepare_mpc_data_def split: if_splits)
  moreover have "sum_list (map processed
      (map (\<lambda>ord. initialize_order (upload_order ord) dummy_freighter) os)) = 0"
    by (induction os) (simp_all add: initialize_order_def mpc_input_def)
  ultimately show ?case
    by (auto simp: initialize_order_def mpc_input_def)
next
  case (round s s1)
  let ?os = "orders (fill_trucks s)"
  let ?n = "sum_list (map process_this_round ?os)"
  have inr: "list_all2 order_in_round (map processed (orders s)) ?os"
    using round.IH by (intro fill_trucks_in_round) blast
  have bits: "\<forall>ord\<in>set ?os. processed ord \<in> {0, 1}"
    using inr by (rule in_round_bits)
  have sums: "sum_list (map processed ?os) = num_processed_orders s + ?n"
    using in_round_sums [OF inr] round.IH by simp
  have "orders s1 = map (\<lambda>ord. ord\<lparr>process_this_round := 0\<rparr>) ?os
      \<and> num_processed_orders s1 = num_processed_orders s + ?n"
  proof (cases "?n = 0")
    case False
    with solve_round_progress [OF False] round.hyps(3) show ?thesis by auto
  next
    case True
    from round.hyps(3) obtain s3 where
      ce: "create_empty_truck_drive (mpc_output (fill_trucks s) NumAddedOrders 0 Everyone) = Inr s3"
      and s1: "s1 = s3\<lparr>orders := map (\<lambda>ord. ord\<lparr>process_this_round := 0\<rparr>) (orders s3),
                        num_processed_orders := num_processed_orders s3 + 0\<rparr>"
      unfolding solve_round_stalled [OF True] by (auto split: sum.splits)
    let ?s2 = "mpc_output (fill_trucks s) NumAddedOrders 0 Everyone"
    have "orders ?s2 \<noteq> []"
      using round.hyps(2) round.IH list_all2_lengthD [OF inr]
      by (auto simp: mpc_output_fields)
    moreover have "trucks ?s2 \<noteq> []"
      using ce create_empty_truck_drive_no_trucks [of ?s2] by auto
    ultimately have "orders s3 = orders ?s2 \<and> num_processed_orders s3 = num_processed_orders ?s2"
      using create_empty_truck_drive_result [of ?s2] ce by auto
    then show ?thesis
      using True by (simp add: s1 mpc_output_fields fill_trucks_fields)
  qed
  moreover have "sum_list (map processed (map (\<lambda>ord. ord\<lparr>process_this_round := 0\<rparr>) ?os))
      = sum_list (map processed ?os)"
    by (simp add: comp_def)
  ultimately show ?case
    using bits sums by auto
qed


text \<open>
  C3: let \<open>s\<close> be a state of \<open>solve_problem\<close> in which the loop condition holds. A
  round that returns appends no \<open>EmptyDrive\<close> when the revealed sum of
  \<open>process_this_round\<close> is not 0. When the sum is 0 it appends exactly one record, and one
  truck, the relocated one, then stands at the origin of the first unprocessed order,
  which the record names as its target, while every other truck keeps its position. A
  round returns whenever the solver has a truck; without trucks a stalled round raises
  in \<open>argmin\<close> and no further round begins.
\<close>

theorem stalled_round_one_empty_drive:
  assumes rs: "round_state s"
    and guard: "num_processed_orders s < int (length (orders s))"
  shows "(trucks s \<noteq> [] \<longrightarrow> (\<exists>s1. solve_round s = Inr s1))
       \<and> (\<forall>s1. solve_round s = Inr s1 \<longrightarrow>
            (sum_list (map process_this_round (orders (fill_trucks s))) \<noteq> 0 \<longrightarrow>
               empty_drives s1 = empty_drives s)
            \<and> (sum_list (map process_this_round (orders (fill_trucks s))) = 0 \<longrightarrow>
               (\<exists>d i ord.
                  empty_drives s1 = empty_drives s @ [d]
                  \<and> List.find (\<lambda>ord. processed ord = 0) (orders (fill_trucks s)) = Some ord
                  \<and> first_unprocessed_origin d = origin ord
                  \<and> i < length (trucks s1)
                  \<and> position (trucks s1 ! i) = origin ord
                  \<and> closest_position d = position (trucks (fill_trucks s) ! i)
                  \<and> EmptyDrive.freighter_id d = truck.freighter_id (trucks s1 ! i)
                  \<and> (\<forall>j<length (trucks s1). j \<noteq> i \<longrightarrow>
                        position (trucks s1 ! j) = position (trucks (fill_trucks s) ! j)))))"
proof -
  let ?sf = "fill_trucks s"
  let ?n = "sum_list (map process_this_round (orders ?sf))"
  let ?s2 = "mpc_output ?sf NumAddedOrders 0 Everyone"
  let ?fo = "in_prod (map origin (orders ?s2))
               (first_mask (map (\<lambda>ord. 1 - processed ord) (orders ?s2)) 0)"
  note inv = round_state_invariant [OF rs]
  have inr: "list_all2 order_in_round (map processed (orders s)) (orders ?sf)"
    using inv by (intro fill_trucks_in_round) blast
  have bits: "\<forall>ord\<in>set (orders ?sf). processed ord \<in> {0, 1}"
    using inr by (rule in_round_bits)
  have os: "orders ?s2 \<noteq> []"
    using guard inv list_all2_lengthD [OF inr] by (auto simp: mpc_output_fields)
  have tlen: "length (trucks ?s2) = length (trucks s)"
    by (simp add: mpc_output_fields fill_trucks_fields fill_trucks_loop_length)
  have completes: "\<exists>s1. solve_round s = Inr s1" if ts: "trucks s \<noteq> []"
  proof (cases "?n = 0")
    case False
    then show ?thesis using solve_round_progress by blast
  next
    case True
    from ts tlen have "trucks ?s2 \<noteq> []" by auto
    with os obtain s3 where "create_empty_truck_drive ?s2 = Inr s3"
      using create_empty_truck_drive_result [of ?s2] by blast
    then show ?thesis
      unfolding solve_round_stalled [OF True] by simp
  qed
  have progress: "empty_drives s1 = empty_drives s"
    if "solve_round s = Inr s1" and "?n \<noteq> 0" for s1
    using solve_round_progress [OF that(2)] that(1) by auto
  have stalled: "\<exists>d i ord.
      empty_drives s1 = empty_drives s @ [d]
      \<and> List.find (\<lambda>ord. processed ord = 0) (orders ?sf) = Some ord
      \<and> first_unprocessed_origin d = origin ord
      \<and> i < length (trucks s1)
      \<and> position (trucks s1 ! i) = origin ord
      \<and> closest_position d = position (trucks ?sf ! i)
      \<and> EmptyDrive.freighter_id d = truck.freighter_id (trucks s1 ! i)
      \<and> (\<forall>j<length (trucks s1). j \<noteq> i \<longrightarrow>
            position (trucks s1 ! j) = position (trucks ?sf ! j))"
    if run: "solve_round s = Inr s1" and zero: "?n = 0" for s1
  proof -
    from run obtain s3 where ce: "create_empty_truck_drive ?s2 = Inr s3"
      and s1: "s1 = s3\<lparr>orders := map (\<lambda>ord. ord\<lparr>process_this_round := 0\<rparr>) (orders s3),
                        num_processed_orders := num_processed_orders s3 + 0\<rparr>"
      unfolding solve_round_stalled [OF zero] by (auto split: sum.splits)
    have ts: "trucks ?s2 \<noteq> []"
      using ce create_empty_truck_drive_no_trucks [of ?s2] by auto
    from create_empty_truck_drive_result [OF os ts] ce
    obtain i where i: "i < length (trucks ?s2)"
      and ed: "empty_drives s3 = empty_drives ?s2 @
                 [\<lparr>freighter_id = truck.freighter_id (trucks ?s2 ! i),
                   closest_position = position (trucks ?s2 ! i),
                   first_unprocessed_origin = ?fo\<rparr>]"
      and len: "length (trucks s3) = length (trucks ?s2)"
      and nth: "\<forall>j<length (trucks ?s2).
                 position (trucks s3 ! j) = (if j = i then ?fo else position (trucks ?s2 ! j))
                 \<and> truck.freighter_id (trucks s3 ! j) = truck.freighter_id (trucks ?s2 ! j)"
      by auto
    have same: "map processed (orders ?sf) = map processed (orders s)"
      using in_round_none_added [OF inr zero] by simp
    have "sum_list (map processed (orders ?sf)) < int (length (orders ?sf))"
      using guard inv list_all2_lengthD [OF inr] by (simp add: same)
    with bits obtain ord where
      ord: "List.find (\<lambda>ord. processed ord = 0) (orders ?sf) = Some ord"
      using bits_sum_less_length by blast
    have fo: "?fo = origin ord"
      using first_unprocessed_origin_value [OF bits ord] by (simp add: mpc_output_fields)
    let ?d = "\<lparr>freighter_id = truck.freighter_id (trucks ?s2 ! i),
               closest_position = position (trucks ?s2 ! i),
               first_unprocessed_origin = ?fo\<rparr>"
    have "empty_drives s1 = empty_drives s @ [?d]"
      using ed by (simp add: s1 mpc_output_fields fill_trucks_fields)
    moreover have "first_unprocessed_origin ?d = origin ord"
      using fo by simp
    moreover have "i < length (trucks s1)"
      using i len by (simp add: s1)
    moreover have "position (trucks s1 ! i) = origin ord"
      using nth i fo by (simp add: s1)
    moreover have "closest_position ?d = position (trucks ?sf ! i)"
      by (simp add: mpc_output_fields)
    moreover have "EmptyDrive.freighter_id ?d = truck.freighter_id (trucks s1 ! i)"
      using nth i by (simp add: s1)
    moreover have "\<forall>j<length (trucks s1). j \<noteq> i \<longrightarrow>
        position (trucks s1 ! j) = position (trucks ?sf ! j)"
      using nth len by (simp add: s1 mpc_output_fields)
    ultimately show ?thesis
      using ord by blast
  qed
  from completes progress stalled show ?thesis by blast
qed


lemma stalled_solver_round_state: "round_state stalled_solver"
  by (rule round_state.start
      [of "[\<lparr>capacity = 10, position = 1, freighter_id = 7, destination = 0, dist_to_order = 0\<rparr>]"
          "[\<lparr>origin = 0, destination = 1, volume = 4, processed = 0, process_this_round = 0,
             freighter_id = 0\<rparr>]"
          "- 1" "- 1" "[0, 1]" "[ [0, 5], [5, 0] ]" 10])
    (simp add: MPCSolver_def prepare_mpc_data_def stalled_solver_def scenario_solver_def
      scenario_simps initialize_truck_def upload_truck_def initialize_order_def upload_order_def
      mpc_input_def)

lemma stalled_solver_fill:
  "fill_trucks stalled_solver = stalled_solver"
  by (simp add: stalled_solver_def scenario_solver_def scenario_simps fill_eval)

lemma stalled_solver_round:
  "solve_round stalled_solver =
     Inr (stalled_solver
       \<lparr>trucks := [scenario_truck\<lparr>position := 0, dist_to_order := 5\<rparr>],
        empty_drives := [\<lparr>freighter_id = 7, closest_position = 1, first_unprocessed_origin = 0\<rparr>],
        outputs := [Output NumAddedOrders 0 Everyone]\<rparr>)"
  unfolding solve_round_def stalled_solver_fill
  by (simp add: stalled_solver_def scenario_solver_def scenario_simps Let_def mpc_output_def
      create_empty_truck_drive_def locate_first_unprocessed_origin_def
      find_first_non_zero_first_mask compute_indicator_vector_map find_distances_to_order_def
      find_truck_dist_to_order_def find_truck_position_def find_freighter_id_def move_truck_def
      in_prod_def mpc_eq_def mpc_input_def if_else_def real_or_def numeral_2_eq_2)

theorem stalled_round_one_empty_drive_witness:
  "round_state stalled_solver
   \<and> num_processed_orders stalled_solver < int (length (orders stalled_solver))
   \<and> sum_list (map process_this_round (orders (fill_trucks stalled_solver))) = 0
   \<and> map_sum id empty_drives (solve_round stalled_solver) =
       Inr [\<lparr>freighter_id = 7, closest_position = 1, first_unprocessed_origin = 0\<rparr>]
   \<and> map_sum id (\<lambda>s. map position (trucks s)) (solve_round stalled_solver) = Inr [0]
   \<and> List.find (\<lambda>ord. processed ord = 0) (orders (fill_trucks stalled_solver))
       = Some scenario_order
   \<and> origin scenario_order = 0"
proof -
  have guard: "num_processed_orders stalled_solver < int (length (orders stalled_solver))"
    by (simp add: stalled_solver_def scenario_solver_def)
  from stalled_round_one_empty_drive [OF stalled_solver_round_state guard] guard
  show ?thesis
    by (simp add: stalled_solver_round_state stalled_solver_round stalled_solver_fill)
      (simp add: stalled_solver_def scenario_solver_def scenario_simps)
qed

section \<open>The reveal phase\<close>

text \<open>
  C2: on termination the origin, destination and volume of an order and the positions
  of an empty drive should reach the owning party only. On the example problem with the
  truck at node 1 the run of \<open>solve_problem\<close> ends after two rounds, and its
  \<open>mpc.output\<close> calls are listed below: each of these fields is first revealed to party
  0 and then, by the calls inside the \<open>logger.debug\<close> arguments, to every party.
\<close>

theorem solve_problem_reveals_to_everyone:
  "map_option (map_sum id outputs) (solve_problem stalled_solver) =
     Some (Inr
       [Output NumAddedOrders 0 Everyone,
        Output NumAddedOrders 1 Everyone,
        Output (OrderFreighterId 0) 7 Everyone,
        Output (OrderOrigin 0) 0 (Party 0),
        Output (OrderDestination 0) 1 (Party 0),
        Output (OrderVolume 0) 4 (Party 0),
        Output (OrderOrigin 0) 0 Everyone,
        Output (OrderDestination 0) 1 Everyone,
        Output (OrderVolume 0) 4 Everyone,
        Output (DriveFreighterId 0) 7 Everyone,
        Output (DriveClosestPosition 0) 1 (Party 0),
        Output (DriveFirstUnprocessedOrigin 0) 0 (Party 0),
        Output (DriveClosestPosition 0) 1 Everyone,
        Output (DriveFirstUnprocessedOrigin 0) 0 Everyone])"
proof -
  define st1 where "st1 = stalled_solver
       \<lparr>trucks := [scenario_truck\<lparr>position := 0, dist_to_order := 5\<rparr>],
        empty_drives := [\<lparr>freighter_id = 7, closest_position = 1, first_unprocessed_origin = 0\<rparr>],
        outputs := [Output NumAddedOrders 0 Everyone]\<rparr>"
  define st2 where "st2 = st1
       \<lparr>trucks := [scenario_truck\<lparr>position := 1, dist_to_order := 5\<rparr>],
        orders := [scenario_order\<lparr>processed := 1, order.freighter_id := 7\<rparr>],
        num_processed_orders := 1,
        outputs := [Output NumAddedOrders 0 Everyone, Output NumAddedOrders 1 Everyone]\<rparr>"
  have r1: "solve_round stalled_solver = Inr st1"
    by (simp add: stalled_solver_round st1_def)
  have r2: "solve_round st1 = Inr st2"
    by (simp add: solve_round_def st1_def st2_def stalled_solver_def scenario_solver_def
        scenario_simps fill_eval mpc_output_def Let_def)
  have l2: "solve_loop st2 = Some (Inr st2)"
    by (subst solve_loop.simps)
      (simp add: st2_def st1_def stalled_solver_def scenario_solver_def)
  have l1: "solve_loop st1 = Some (Inr st2)"
    by (subst solve_loop.simps)
      (simp add: r2 l2, simp add: st1_def stalled_solver_def scenario_solver_def)
  have l0: "solve_loop stalled_solver = Some (Inr st2)"
    by (subst solve_loop.simps)
      (simp add: r1 l1, simp add: stalled_solver_def scenario_solver_def)
  have "solve_problem stalled_solver = Some (Inr (reveal_results st2))"
    by (simp add: solve_problem_def l0)
  then show ?thesis
    by (simp add: reveal_results_def reveal_order_def reveal_empty_drive_def mpc_output_def
        Let_def st2_def st1_def stalled_solver_def scenario_solver_def scenario_simps)
qed

end
